theory Spec2Isabelle
  imports Main "HOL-Library.AList"
begin

section \<open>JavaScript values\<close>

text \<open>
  The values the two components handle: request fields, the upstream (VIES) response, the
  JSON documents of the object store and the objects the entry points return.
  Numbers are modelled as integers (every number this code computes with is a count or a
  millisecond time stamp), the sums and differences of counts rounded as doubles are, with
  \<open>JNaN\<close> for NaN; a \<open>Date\<close> carries its time value,
  \<open>None\<close> for an invalid date; an object is the list of its own properties in insertion
  order. Strings are sequences of ASCII code units.
\<close>

datatype jsval =
    JUndefined
  | JNull
  | JBool bool
  | JNum int
  | JNaN
  | JStr string
  | JDate "int option"
  | JObj "(string \<times> jsval) list"

text \<open>A thrown value, summarised by its \<open>message\<close> (empty when it has none).\<close>

datatype js_error = Error (message: string)

fun truthy :: "jsval \<Rightarrow> bool" where
  "truthy JUndefined = False"
| "truthy JNull = False"
| "truthy (JBool b) = b"
| "truthy (JNum n) = (n \<noteq> 0)"
| "truthy JNaN = False"
| "truthy (JStr s) = (s \<noteq> [])"
| "truthy (JDate d) = True"
| "truthy (JObj kvs) = True"

text \<open>\<open>a || b\<close>\<close>

definition js_or :: "jsval \<Rightarrow> jsval \<Rightarrow> jsval" where
  "js_or a b = (if truthy a then a else b)"

text \<open>
  \<open>v.k\<close> for a \<open>v\<close> that is neither \<open>undefined\<close> nor \<open>null\<close>. The names read by this
  code (\<open>cachedAt\<close>, \<open>payload\<close>, \<open>count\<close>, \<open>valid\<close>, ...) are not properties of a
  string, number, boolean or Date, so only an object can answer.
\<close>

fun get_prop :: "jsval \<Rightarrow> string \<Rightarrow> jsval" where
  "get_prop (JObj kvs) k = (case map_of kvs k of Some x \<Rightarrow> x | None \<Rightarrow> JUndefined)"
| "get_prop v k = JUndefined"

text \<open>\<open>v.k\<close> in general: reading a property of \<open>undefined\<close> or \<open>null\<close> throws a TypeError.\<close>

definition read_prop :: "jsval \<Rightarrow> string \<Rightarrow> js_error + jsval" where
  "read_prop v k =
     (if v = JUndefined then
        Inl (Error (''Cannot read properties of undefined (reading '' @ [CHR 0x27] @ k @ [CHR 0x27] @ '')''))
      else if v = JNull then
        Inl (Error (''Cannot read properties of null (reading '' @ [CHR 0x27] @ k @ [CHR 0x27] @ '')''))
      else Inr (get_prop v k))"

text \<open>\<open>v?.k\<close>\<close>

definition opt_prop :: "jsval \<Rightarrow> string \<Rightarrow> jsval" where
  "opt_prop v k = (if v = JUndefined \<or> v = JNull then JUndefined else get_prop v k)"

text \<open>
  \<open>v.k = x\<close> in an ES module (strict mode): an object takes the property, in place when it
  has one of that name and at the end otherwise; a primitive throws a TypeError.
\<close>

fun assign_prop :: "jsval \<Rightarrow> string \<Rightarrow> jsval \<Rightarrow> js_error + jsval" where
  "assign_prop (JObj kvs) k x = Inr (JObj (AList.update k x kvs))"
| "assign_prop (JDate d) k x = Inr (JDate d)"
| "assign_prop v k x = Inl (Error (''Cannot create property '' @ [CHR 0x27] @ k @ [CHR 0x27]))"

text \<open>
  The conversion of an object to a primitive calls its \<open>toString\<close>. The objects here are
  data (request fields and parsed JSON), so an own property of that name is not a function
  and the conversion throws a TypeError; any other object has the \<open>toString\<close> of
  \<open>Object.prototype\<close>.
\<close>

definition own_toString :: "(string \<times> jsval) list \<Rightarrow> bool" where
  "own_toString kvs = (map_of kvs ''toString'' \<noteq> None)"

definition not_primitive :: js_error where
  "not_primitive = Error ''Cannot convert object to primitive value''"

section \<open>Strings and numerals\<close>

definition digit_char :: "int \<Rightarrow> char" where
  "digit_char d = char_of (48 + d)"

text \<open>The last \<open>k\<close> decimal digits of \<open>n\<close>, zero padded.\<close>

fun pad :: "nat \<Rightarrow> int \<Rightarrow> string" where
  "pad 0 n = []"
| "pad (Suc k) n = pad k (n div 10) @ [digit_char (n mod 10)]"

function dec_digits :: "int \<Rightarrow> string" where
  "dec_digits n = (if n < 10 then [digit_char n] else dec_digits (n div 10) @ [digit_char (n mod 10)])"
  by pat_completeness auto
termination
  by (relation "measure nat") auto

declare dec_digits.simps [simp del]

text \<open>\<open>String(n)\<close> for an integer \<open>n\<close> (below \<open>10^21\<close> in magnitude).\<close>

definition dec_int :: "int \<Rightarrow> string" where
  "dec_int i = (if i < 0 then CHR ''-'' # dec_digits (- i) else dec_digits i)"

definition digit36 :: "int \<Rightarrow> char" where
  "digit36 d = (if d < 10 then char_of (48 + d) else char_of (87 + d))"

function base36_digits :: "int \<Rightarrow> string" where
  "base36_digits n = (if n < 36 then [digit36 n] else base36_digits (n div 36) @ [digit36 (n mod 36)])"
  by pat_completeness auto
termination
  by (relation "measure nat") auto

declare base36_digits.simps [simp del]

text \<open>\<open>n.toString(36)\<close> for an integer \<open>n\<close>\<close>

definition toString36 :: "int \<Rightarrow> string" where
  "toString36 i = (if i < 0 then CHR ''-'' # base36_digits (- i) else base36_digits i)"

text \<open>
  Numbers are IEEE 754 doubles: an integer of magnitude up to \<open>2^53\<close> is one, beyond that
  only the multiples of a power of two are (the unit in the last place, \<open>ulp_of\<close>). The
  result of an addition or subtraction is the double nearest to the exact result, the one
  with the even significand when two are equally near.
\<close>

function ulp_of :: "int \<Rightarrow> int" where
  "ulp_of a = (if a < 9007199254740992 then 1 else 2 * ulp_of (a div 2))"
  by pat_completeness auto
termination
  by (relation "measure nat") auto

declare ulp_of.simps [simp del]

definition round_double :: "int \<Rightarrow> int" where
  "round_double x =
     (let a = \<bar>x\<bar>;
          u = ulp_of a;
          q = a div u;
          r = a mod u;
          q' = (if u < 2 * r \<or> (2 * r = u \<and> odd q) then q + 1 else q)
      in sgn x * (q' * u))"

text \<open>\<open>a + b\<close> and \<open>a - b\<close> on numbers\<close>

definition js_add :: "int \<Rightarrow> int \<Rightarrow> int" where
  "js_add a b = round_double (a + b)"

definition js_sub :: "int \<Rightarrow> int \<Rightarrow> int" where
  "js_sub a b = round_double (a - b)"

text \<open>White space as \<open>\s\<close> and \<open>trim\<close> see it, within ASCII.\<close>

definition is_space :: "char \<Rightarrow> bool" where
  "is_space c = (c \<in> set [CHR 0x09, CHR 0x0A, CHR 0x0B, CHR 0x0C, CHR 0x0D, CHR 0x20])"

definition upper_char :: "char \<Rightarrow> char" where
  "upper_char c = (let n = (of_char c :: nat) in if 97 \<le> n \<and> n \<le> 122 then char_of (n - 32) else c)"

definition toUpperCase :: "string \<Rightarrow> string" where
  "toUpperCase s = map upper_char s"

definition trim :: "string \<Rightarrow> string" where
  "trim s = rev (dropWhile is_space (rev (dropWhile is_space s)))"

text \<open>\<open>s.replace(/\s+/g, '')\<close>\<close>

definition strip_ws :: "string \<Rightarrow> string" where
  "strip_ws s = filter (\<lambda>c. \<not> is_space c) s"

text \<open>\<open>s.replace(/[:]/g, '-')\<close>\<close>

definition colons_to_dashes :: "string \<Rightarrow> string" where
  "colons_to_dashes s = map (\<lambda>c. if c = CHR '':'' then CHR ''-'' else c) s"

definition is_digit :: "char \<Rightarrow> bool" where
  "is_digit c = (48 \<le> (of_char c :: int) \<and> (of_char c :: int) \<le> 57)"

section \<open>Dates\<close>

text \<open>A time value is a number of milliseconds since the epoch, within the range of Date.\<close>

definition valid_time :: "int \<Rightarrow> bool" where
  "valid_time t = (- 8640000000000000 \<le> t \<and> t \<le> 8640000000000000)"

definition TimeClip :: "int \<Rightarrow> int option" where
  "TimeClip t = (if valid_time t then Some t else None)"

text \<open>The civil date (year, month, day) of a day number counted from 1970-01-01.\<close>

definition civil_from_days :: "int \<Rightarrow> int \<times> int \<times> int" where
  "civil_from_days z0 =
     (let z = z0 + 719468;
          era = z div 146097;
          doe = z mod 146097;
          yoe = (doe - doe div 1460 + doe div 36524 - doe div 146096) div 365;
          doy = doe - (365 * yoe + yoe div 4 - yoe div 100);
          mp = (5 * doy + 2) div 153;
          d = doy - (153 * mp + 2) div 5 + 1;
          m = (if mp < 10 then mp + 3 else mp - 9);
          y = yoe + era * 400 + (if m \<le> 2 then 1 else 0)
      in (y, m, d))"

definition iso_year :: "int \<Rightarrow> string" where
  "iso_year y =
     (if 0 \<le> y \<and> y \<le> 9999 then pad 4 y
      else (if y < 0 then CHR ''-'' else CHR ''+'') # pad 6 \<bar>y\<bar>)"

text \<open>\<open>new Date(t).toISOString()\<close> for a time value \<open>t\<close>\<close>

definition toISOString :: "int \<Rightarrow> string" where
  "toISOString t =
     (let ms = t mod 86400000;
          (y, m, d) = civil_from_days (t div 86400000)
      in iso_year y @ ''-'' @ pad 2 m @ ''-'' @ pad 2 d @ ''T''
         @ pad 2 (ms div 3600000) @ '':'' @ pad 2 (ms div 60000 mod 60) @ '':''
         @ pad 2 (ms div 1000 mod 60) @ ''.'' @ pad 3 (ms mod 1000) @ ''Z'')"

text \<open>\<open>d.toISOString()\<close> for any Date: an invalid date throws a RangeError.\<close>

definition Date_toISOString :: "int option \<Rightarrow> js_error + string" where
  "Date_toISOString d = (case d of None \<Rightarrow> Inl (Error ''Invalid time value'') | Some t \<Rightarrow> Inr (toISOString t))"


section \<open>The runtime, the configuration and the world\<close>

text \<open>
  What the JavaScript engine decides: \<open>Date.parse\<close> (implementation-defined outside the
  ISO format; \<open>None\<close> is NaN), the conversion of a string to a number, and the local-time
  text of a Date.
\<close>

record runtime =
  Date_parse :: "string \<Rightarrow> int option"
  StringToNumber :: "string \<Rightarrow> int option"
  Date_toString :: "int option \<Rightarrow> string"

text \<open>\<open>new Date(s).getTime()\<close> for a string \<open>s\<close>, \<open>None\<close> for NaN\<close>

definition parse_date :: "runtime \<Rightarrow> string \<Rightarrow> int option" where
  "parse_date rt s = (case Date_parse rt s of None \<Rightarrow> None | Some t \<Rightarrow> TimeClip t)"

text \<open>
  \<open>new Date(v).getTime()\<close>, \<open>None\<close> for NaN. An object is converted to a primitive
  first, which throws when it has an own \<open>toString\<close>.
\<close>

fun new_Date :: "runtime \<Rightarrow> jsval \<Rightarrow> js_error + int option" where
  "new_Date rt JUndefined = Inr None"
| "new_Date rt JNull = Inr (Some 0)"
| "new_Date rt (JBool b) = Inr (Some (if b then 1 else 0))"
| "new_Date rt (JNum n) = Inr (TimeClip n)"
| "new_Date rt JNaN = Inr None"
| "new_Date rt (JStr s) = Inr (parse_date rt s)"
| "new_Date rt (JDate d) = Inr d"
| "new_Date rt (JObj kvs) =
     (if own_toString kvs then Inl not_primitive else Inr (parse_date rt ''[object Object]''))"

text \<open>\<open>Number(v)\<close>, and the number \<open>v++\<close> starts from; \<open>None\<close> for NaN\<close>

fun to_Number :: "runtime \<Rightarrow> jsval \<Rightarrow> js_error + int option" where
  "to_Number rt JUndefined = Inr None"
| "to_Number rt JNull = Inr (Some 0)"
| "to_Number rt (JBool b) = Inr (Some (if b then 1 else 0))"
| "to_Number rt (JNum n) = Inr (Some n)"
| "to_Number rt JNaN = Inr None"
| "to_Number rt (JStr s) = Inr (StringToNumber rt s)"
| "to_Number rt (JDate d) = Inr d"
| "to_Number rt (JObj kvs) =
     (if own_toString kvs then Inl not_primitive else Inr (StringToNumber rt ''[object Object]''))"

text \<open>\<open>String(v)\<close>, and \<open>v\<close> inside a template literal\<close>

fun to_String :: "runtime \<Rightarrow> jsval \<Rightarrow> js_error + string" where
  "to_String rt JUndefined = Inr ''undefined''"
| "to_String rt JNull = Inr ''null''"
| "to_String rt (JBool b) = Inr (if b then ''true'' else ''false'')"
| "to_String rt (JNum n) = Inr (dec_int n)"
| "to_String rt JNaN = Inr ''NaN''"
| "to_String rt (JStr s) = Inr s"
| "to_String rt (JDate d) = Inr (Date_toString rt d)"
| "to_String rt (JObj kvs) = (if own_toString kvs then Inl not_primitive else Inr ''[object Object]'')"

definition num_val :: "int option \<Rightarrow> jsval" where
  "num_val x = (case x of None \<Rightarrow> JNaN | Some n \<Rightarrow> JNum n)"

text \<open>
  The process environment. A numeric variable is given by the number \<open>Number\<close> reads from
  it, \<open>None\<close> when that is NaN.
\<close>

record env =
  S3_BUCKET :: "string option"
  VATFIX_CACHE_TTL_MS :: "int option"
  VATFIX_WINDOW_MS :: "int option"
  VATFIX_RPS_LIMIT :: "int option"
  VATFIX_PLUS :: "string option"

text \<open>\<open>Number(x) || d\<close>\<close>

definition num_or :: "int option \<Rightarrow> int \<Rightarrow> int" where
  "num_or x d = (case x of None \<Rightarrow> d | Some n \<Rightarrow> if n = 0 then d else n)"

text \<open>\<open>!S3_BUCKET\<close> is false\<close>

definition bucket_set :: "env \<Rightarrow> bool" where
  "bucket_set e = (case S3_BUCKET e of None \<Rightarrow> False | Some b \<Rightarrow> b \<noteq> [])"

definition CACHE_TTL_MS :: "env \<Rightarrow> int" where
  "CACHE_TTL_MS e = num_or (VATFIX_CACHE_TTL_MS e) (12 * 3600 * 1000)"

text \<open>
  The world outside the process: the objects of the bucket (each the JSON value its body
  parses to), the clock, and what the store will do. \<open>clock\<close> is what the next
  \<open>Date.now()\<close> or \<open>new Date()\<close> reads and \<open>later\<close> the readings after it;
  \<open>faults\<close> says of each coming request to the store whether it fails (none listed:
  it succeeds). A missing object and a body that is not JSON fail the read the same way.
\<close>

record world =
  objects :: "string \<rightharpoonup> jsval"
  clock :: int
  later :: "int list"
  faults :: "bool list"

definition Date_now :: "world \<Rightarrow> int \<times> world" where
  "Date_now w = (clock w, case later w of [] \<Rightarrow> w | t # ts \<Rightarrow> w\<lparr>clock := t, later := ts\<rparr>)"

text \<open>\<open>JSON.parse(JSON.stringify(v))\<close>: what is read back of a value that was written.\<close>

fun json :: "jsval \<Rightarrow> jsval" and json_props :: "(string \<times> jsval) list \<Rightarrow> (string \<times> jsval) list" where
  "json (JObj kvs) = JObj (json_props kvs)"
| "json JNaN = JNull"
| "json JUndefined = JNull"
| "json (JDate d) = (case d of None \<Rightarrow> JNull | Some t \<Rightarrow> JStr (toISOString t))"
| "json JNull = JNull"
| "json (JBool b) = JBool b"
| "json (JNum n) = JNum n"
| "json (JStr s) = JStr s"
| "json_props [] = []"
| "json_props (kv # kvs) =
     (if snd kv = JUndefined then json_props kvs else (fst kv, json (snd kv)) # json_props kvs)"

text \<open>One GetObject and one PutObject request; the caller catches what they throw.\<close>

definition s3_get :: "string \<Rightarrow> world \<Rightarrow> jsval option \<times> world" where
  "s3_get Key w =
     (case faults w of
        [] \<Rightarrow> (objects w Key, w)
      | f # fs \<Rightarrow> (if f then None else objects w Key, w\<lparr>faults := fs\<rparr>))"

definition s3_put :: "string \<Rightarrow> jsval \<Rightarrow> world \<Rightarrow> world" where
  "s3_put Key data w =
     (case faults w of
        [] \<Rightarrow> w\<lparr>objects := (objects w)(Key \<mapsto> json data)\<rparr>
      | f # fs \<Rightarrow> (if f then w\<lparr>faults := fs\<rparr>
                  else w\<lparr>objects := (objects w)(Key \<mapsto> json data), faults := fs\<rparr>))"


section \<open>The windowed usage meter (meter.js)\<close>

text \<open>The fields of a lookup request, as the HTTP shell hands them over.\<close>

record request =
  apiKey :: jsval
  email :: jsval
  countryCode :: jsval
  vatNumber :: jsval

definition WINDOW_MS :: "env \<Rightarrow> int" where
  "WINDOW_MS e = num_or (VATFIX_WINDOW_MS e) 60000"

definition LIMIT :: "env \<Rightarrow> int" where
  "LIMIT e = num_or (VATFIX_RPS_LIMIT e) 120"

text \<open>\<open>Math.floor(now / WINDOW_MS) * WINDOW_MS\<close>\<close>

definition window_of :: "int \<Rightarrow> int \<Rightarrow> int" where
  "window_of W now = (now div W) * W"

text \<open>The helpers of meter.js: any failure of a read gives \<open>null\<close>, any failure of a write is swallowed.\<close>

definition meter_getJSON :: "string \<Rightarrow> world \<Rightarrow> jsval \<times> world" where
  "meter_getJSON Key w = (case s3_get Key w of (None, w') \<Rightarrow> (JNull, w') | (Some v, w') \<Rightarrow> (v, w'))"

definition meter_putJSON :: "string \<Rightarrow> jsval \<Rightarrow> world \<Rightarrow> world" where
  "meter_putJSON Key data w = s3_put Key data w"

text \<open>The key of a counter, from the day, the text of the API key and the window.\<close>

definition meterKey_of :: "string \<Rightarrow> string \<Rightarrow> int \<Rightarrow> string" where
  "meterKey_of day k window = ''meter/'' @ day @ ''/'' @ k @ ''/'' @ dec_int window @ ''.json''"

definition rate_limit_exceeded :: jsval where
  "rate_limit_exceeded =
     JObj [(''allowed'', JBool False), (''reason'', JStr ''rate_limit_exceeded''), (''remaining'', JNum 0)]"

definition allowed_with :: "jsval \<Rightarrow> jsval" where
  "allowed_with r = JObj [(''allowed'', JBool True), (''remaining'', r)]"

text \<open>
  The body of the \<open>try\<close> block of \<open>meterAndCheck\<close>. \<open>Number(doc.count)\<close>, the assignment
  to \<open>doc.count\<close> and the template of the audit key can throw; the count is a double.
\<close>

definition meter_try :: "env \<Rightarrow> runtime \<Rightarrow> request \<Rightarrow> int \<Rightarrow> string \<Rightarrow> string \<Rightarrow> world
    \<Rightarrow> (js_error + jsval) \<times> world" where
  "meter_try e rt rq window day meterKey w =
     (let (got, w1) = meter_getJSON meterKey w;
          doc = js_or got (JObj [(''count'', JNum 0), (''window'', JNum window),
                                 (''apiKey'', apiKey rq), (''limit'', JNum (LIMIT e))])
      in case to_Number rt (get_prop doc ''count'') of
           Inl err \<Rightarrow> (Inl err, w1)
         | Inr n \<Rightarrow>
             (let count = js_add (num_or n 0) 1
              in case assign_prop doc ''count'' (JNum count) of
                   Inl err \<Rightarrow> (Inl err, w1)
                 | Inr doc' \<Rightarrow>
                     (let w2 = meter_putJSON meterKey doc' w1
                      in if count > LIMIT e then (Inr rate_limit_exceeded, w2)
                         else
                           (let (t1, w3) = Date_now w2;
                                t = colons_to_dashes (toISOString t1);
                                audit = JObj [(''t'', JStr t), (''apiKey'', apiKey rq),
                                              (''email'', email rq), (''countryCode'', countryCode rq),
                                              (''vatNumber'', vatNumber rq)]
                            in case to_String rt (js_or (vatNumber rq) (JStr ''unknown'')) of
                                 Inl err \<Rightarrow> (Inl err, w3)
                               | Inr vat \<Rightarrow>
                                   (let w4 = meter_putJSON
                                               (''logs/'' @ day @ ''/'' @ t @ ''_'' @ vat @ ''.json'')
                                               audit w3
                                    in (Inr (allowed_with (JNum (max 0 (js_sub (LIMIT e) count)))),
                                        w4))))))"

text \<open>
  \<open>meterAndCheck\<close>: what the \<open>try\<close> block throws is answered with \<open>allowed: true\<close>; the
  day of the window and the template of the counter key come before the \<open>try\<close>.
\<close>

definition meterAndCheck :: "env \<Rightarrow> runtime \<Rightarrow> request \<Rightarrow> world \<Rightarrow> (js_error + jsval) \<times> world" where
  "meterAndCheck e rt rq w =
     (if \<not> bucket_set e \<or> \<not> truthy (apiKey rq) then (Inr (allowed_with JUndefined), w)
      else
        (let (now, w1) = Date_now w;
             window = window_of (WINDOW_MS e) now
         in case Date_toISOString (TimeClip window) of
              Inl err \<Rightarrow> (Inl err, w1)
            | Inr stamp \<Rightarrow>
                (case to_String rt (apiKey rq) of
                   Inl err \<Rightarrow> (Inl err, w1)
                 | Inr k \<Rightarrow>
                     (let day = take 10 stamp;
                          meterKey = meterKey_of day k window
                      in case meter_try e rt rq window day meterKey w1 of
                           (Inl err, w2) \<Rightarrow> (Inr (allowed_with JUndefined), w2)
                         | (Inr res, w2) \<Rightarrow> (Inr res, w2)))))"

section \<open>The legacy meter (lib/meter.js)\<close>

definition lib_LIMIT :: "env \<Rightarrow> int" where
  "lib_LIMIT e = num_or (VATFIX_RPS_LIMIT e) 60"

definition lib_meterKey_of :: "string \<Rightarrow> int \<Rightarrow> string" where
  "lib_meterKey_of k window = ''meter/'' @ k @ ''/'' @ dec_int window @ ''.json''"

text \<open>
  \<open>doc.count++\<close>: the new document and the new count (\<open>None\<close> for NaN), or what it throws:
  reading a property of \<open>null\<close>, converting an object to a number, assigning to a primitive.
\<close>

definition increment_count :: "runtime \<Rightarrow> jsval \<Rightarrow> js_error + (jsval \<times> int option)" where
  "increment_count rt doc =
     (case read_prop doc ''count'' of
        Inl err \<Rightarrow> Inl err
      | Inr old \<Rightarrow>
          (case to_Number rt old of
             Inl err \<Rightarrow> Inl err
           | Inr n \<Rightarrow>
               (let new = map_option (\<lambda>x. js_add x 1) n
                in case assign_prop doc ''count'' (num_val new) of
                     Inl err \<Rightarrow> Inl err
                   | Inr doc' \<Rightarrow> Inr (doc', new))))"

text \<open>\<open>count > LIMIT\<close>, false for NaN\<close>

definition exceeds :: "int option \<Rightarrow> int \<Rightarrow> bool" where
  "exceeds count L = (case count of None \<Rightarrow> False | Some n \<Rightarrow> n > L)"

text \<open>
  The legacy \<open>meterAndCheck\<close>. Nothing here is inside a \<open>try\<close> but the read of the
  counter: the templates of the two keys and \<open>doc.count++\<close> throw to the caller.
\<close>

definition lib_meterAndCheck :: "env \<Rightarrow> runtime \<Rightarrow> request \<Rightarrow> world \<Rightarrow> (js_error + jsval) \<times> world" where
  "lib_meterAndCheck e rt rq w =
     (if \<not> bucket_set e then (Inr (JObj [(''allowed'', JBool True)]), w)
      else
        (let (now, w1) = Date_now w;
             window = window_of (WINDOW_MS e) now
         in case to_String rt (apiKey rq) of
              Inl err \<Rightarrow> (Inl err, w1)
            | Inr k \<Rightarrow>
                (let key = lib_meterKey_of k window;
                     (got, w2) = s3_get key w1;
                     doc = (case got of
                              None \<Rightarrow> JObj [(''count'', JNum 0), (''window'', JNum window),
                                            (''key'', apiKey rq)]
                            | Some d \<Rightarrow> d)
                 in case increment_count rt doc of
                      Inl err \<Rightarrow> (Inl err, w2)
                    | Inr (doc', count) \<Rightarrow>
                        if exceeds count (lib_LIMIT e) then
                          (Inr (JObj [(''allowed'', JBool False),
                                      (''reason'', JStr ''rate_limit_exceeded'')]),
                           s3_put key doc' w2)
                        else
                          (let w3 = s3_put key doc' w2;
                               (t1, w4) = Date_now w3;
                               t = toISOString t1;
                               audit = JObj [(''t'', JStr t), (''apiKey'', apiKey rq),
                                             (''email'', email rq), (''countryCode'', countryCode rq),
                                             (''vatNumber'', vatNumber rq)]
                           in case to_String rt (vatNumber rq) of
                                Inl err \<Rightarrow> (Inl err, w4)
                              | Inr vat \<Rightarrow>
                                  (Inr (JObj [(''allowed'', JBool True)]),
                                   s3_put (''logs/'' @ t @ ''_'' @ vat @ ''.json'') audit w4)))))"

section \<open>The validation fallback engine (validate.js)\<close>

text \<open>The own properties \<open>{...v}\<close> copies: those of an object, the characters of a string.\<close>

fun own_props :: "jsval \<Rightarrow> (string \<times> jsval) list" where
  "own_props (JObj kvs) = kvs"
| "own_props (JStr s) = map (\<lambda>(i, c). (dec_int (int i), JStr [c])) (enumerate 0 s)"
| "own_props v = []"

text \<open>The properties an object literal adds, in order, to those it has so far.\<close>

definition set_props :: "(string \<times> jsval) list \<Rightarrow> (string \<times> jsval) list \<Rightarrow> (string \<times> jsval) list" where
  "set_props base kvs = fold (\<lambda>kv. AList.update (fst kv) (snd kv)) kvs base"

text \<open>\<open>cacheKey\<close>: each of the two conversions to a string can throw.\<close>

definition cacheKey :: "runtime \<Rightarrow> jsval \<Rightarrow> jsval \<Rightarrow> js_error + string" where
  "cacheKey rt c v =
     (case to_String rt (js_or c (JStr [])) of
        Inl err \<Rightarrow> Inl err
      | Inr cs \<Rightarrow>
          (case to_String rt (js_or v (JStr [])) of
             Inl err \<Rightarrow> Inl err
           | Inr vs \<Rightarrow> Inr (''cache/'' @ toUpperCase cs @ ''_'' @ strip_ws vs @ ''.json'')))"

definition getJSON :: "env \<Rightarrow> string \<Rightarrow> world \<Rightarrow> jsval \<times> world" where
  "getJSON e Key w =
     (if \<not> bucket_set e then (JNull, w)
      else case s3_get Key w of (None, w') \<Rightarrow> (JNull, w') | (Some v, w') \<Rightarrow> (v, w'))"

definition putJSON :: "env \<Rightarrow> string \<Rightarrow> jsval \<Rightarrow> world \<Rightarrow> world" where
  "putJSON e Key data w = (if \<not> bucket_set e then w else s3_put Key data w)"

text \<open>\<open>Date.now() - cachedAt < TTL\<close> for the time value \<open>cachedAt\<close>, false when it is NaN\<close>

definition is_fresh :: "int \<Rightarrow> int \<Rightarrow> int option \<Rightarrow> bool" where
  "is_fresh ttl now cachedAt = (case cachedAt of None \<Rightarrow> False | Some t \<Rightarrow> now - t < ttl)"

text \<open>\<open>getCached\<close>: nothing is caught here, so the key and \<open>new Date(rec.cachedAt)\<close> can throw.\<close>

definition getCached :: "env \<Rightarrow> runtime \<Rightarrow> jsval \<Rightarrow> jsval \<Rightarrow> world \<Rightarrow> (js_error + jsval) \<times> world" where
  "getCached e rt c v w =
     (case cacheKey rt c v of
        Inl err \<Rightarrow> (Inl err, w)
      | Inr Key \<Rightarrow>
          (let (rec, w1) = getJSON e Key w
           in if \<not> truthy rec then (Inr JNull, w1)
              else
                (let (now, w2) = Date_now w1
                 in case new_Date rt (get_prop rec ''cachedAt'') of
                      Inl err \<Rightarrow> (Inl err, w2)
                    | Inr cachedAt \<Rightarrow>
                        (Inr (if is_fresh (CACHE_TTL_MS e) now cachedAt
                              then get_prop rec ''payload'' else JNull), w2))))"

definition setCached :: "env \<Rightarrow> runtime \<Rightarrow> jsval \<Rightarrow> jsval \<Rightarrow> jsval \<Rightarrow> world \<Rightarrow> (js_error + unit) \<times> world" where
  "setCached e rt c v payload w =
     (case cacheKey rt c v of
        Inl err \<Rightarrow> (Inl err, w)
      | Inr Key \<Rightarrow>
          (let (t, w1) = Date_now w
           in (Inr (), putJSON e Key (JObj [(''cachedAt'', JStr (toISOString t)), (''payload'', payload)]) w1)))"

text \<open>\<open>rd.replace(/(\+\d{2}):?(\d{2})$/, '$1$2')\<close>, on the reversed string\<close>

fun fix_offset_rev :: "string \<Rightarrow> string" where
  "fix_offset_rev (m2 # m1 # c # h2 # h1 # p # rest) =
     (if p = CHR ''+'' \<and> is_digit h1 \<and> is_digit h2 \<and> c = CHR '':'' \<and> is_digit m1 \<and> is_digit m2
      then m2 # m1 # h2 # h1 # p # rest
      else m2 # m1 # c # h2 # h1 # p # rest)"
| "fix_offset_rev s = s"

definition fix_offset :: "string \<Rightarrow> string" where
  "fix_offset s = rev (fix_offset_rev (rev s))"

text \<open>\<open>new Date().toISOString()\<close>\<close>

definition now_iso :: "world \<Rightarrow> string \<times> world" where
  "now_iso w = (let (t, w1) = Date_now w in (toISOString t, w1))"

definition normalizeRequestDate :: "runtime \<Rightarrow> jsval \<Rightarrow> world \<Rightarrow> string \<times> world" where
  "normalizeRequestDate rt rd w =
     (case rd of
        JDate d \<Rightarrow> (case d of None \<Rightarrow> now_iso w | Some t \<Rightarrow> (toISOString t, w))
      | JStr s \<Rightarrow> (case parse_date rt (fix_offset s) of None \<Rightarrow> now_iso w | Some t \<Rightarrow> (toISOString t, w))
      | _ \<Rightarrow> now_iso w)"

text \<open>
  The upstream service: what \<open>viesCall\<close> resolves to, or the error it rejects with, for the
  country code and number it is given.
\<close>

type_synonym upstream = "jsval \<Rightarrow> jsval \<Rightarrow> js_error + jsval"

text \<open>The canonical payload \<open>checkVAT\<close> builds from a response \<open>res\<close> of the upstream.\<close>

definition canonical_payload :: "env \<Rightarrow> string \<Rightarrow> string \<Rightarrow> string \<Rightarrow> jsval \<Rightarrow> string \<Rightarrow> jsval" where
  "canonical_payload e cc vn lookupId res rd =
     JObj [(''countryCode'', js_or (get_prop res ''countryCode'') (JStr cc)),
           (''vatNumber'', js_or (get_prop res ''vatNumber'') (JStr vn)),
           (''valid'', JBool (truthy (get_prop res ''valid''))),
           (''name'', js_or (get_prop res ''name'') JNull),
           (''address'', js_or (get_prop res ''address'') JNull),
           (''requestDate'', JStr rd),
           (''lookupId'', JStr lookupId),
           (''source'', JStr ''vies''),
           (''cacheTtlMs'', JNum (CACHE_TTL_MS e))]"

text \<open>
  The \<open>try\<close> block of \<open>checkVAT\<close>: the live call, the canonical payload, the cache write,
  whose own failure is caught and dropped. Reading the first property of a response that is
  \<open>undefined\<close> or \<open>null\<close> throws.
\<close>

definition live_lookup :: "env \<Rightarrow> runtime \<Rightarrow> upstream \<Rightarrow> string \<Rightarrow> string \<Rightarrow> string \<Rightarrow> world
    \<Rightarrow> (js_error + jsval) \<times> world" where
  "live_lookup e rt vies cc vn lookupId w =
     (case vies (JStr cc) (JStr vn) of
        Inl err \<Rightarrow> (Inl err, w)
      | Inr res \<Rightarrow>
          (case read_prop res ''countryCode'' of
             Inl err \<Rightarrow> (Inl err, w)
           | Inr rc \<Rightarrow>
               (let (rd, w1) = normalizeRequestDate rt (get_prop res ''requestDate'') w;
                    payload = canonical_payload e cc vn lookupId res rd;
                    w2 = snd (setCached e rt (JStr cc) (JStr vn) payload w1)
                in (Inr payload, w2))))"

text \<open>\<open>err?.message || 'unavailable'\<close>\<close>

definition failure_reason :: "js_error \<Rightarrow> string" where
  "failure_reason err = (if message err = [] then ''unavailable'' else message err)"

text \<open>
  The \<open>catch\<close> block of \<open>checkVAT\<close>: the cached answer, or the soft error. What the cache
  read throws is thrown to the caller.
\<close>

definition fallback :: "env \<Rightarrow> runtime \<Rightarrow> string \<Rightarrow> string \<Rightarrow> string \<Rightarrow> js_error \<Rightarrow> world
    \<Rightarrow> (js_error + jsval) \<times> world" where
  "fallback e rt cc vn lookupId err w =
     (case getCached e rt (JStr cc) (JStr vn) w of
        (Inl thrown, w1) \<Rightarrow> (Inl thrown, w1)
      | (Inr cached, w1) \<Rightarrow>
          if truthy cached then
            (let (now, w2) = now_iso w1
             in (Inr (JObj (set_props (own_props cached)
                   [(''requestDate'', JStr now),
                    (''lookupId'', JStr lookupId),
                    (''source'', JStr ''cache''),
                    (''cacheTtlMs'', JNum (CACHE_TTL_MS e)),
                    (''cached'', JBool True)])), w2))
          else
            (let (now, w2) = now_iso w1
             in (Inr (JObj
                   [(''countryCode'', JStr cc),
                    (''vatNumber'', JStr vn),
                    (''valid'', JBool False),
                    (''name'', JNull),
                    (''address'', JNull),
                    (''requestDate'', JStr now),
                    (''lookupId'', JStr lookupId),
                    (''source'', JStr ''error''),
                    (''cacheTtlMs'', JNum (CACHE_TTL_MS e)),
                    (''error'', JStr (''fallback:'' @ failure_reason err))]), w2)))"

text \<open>
  The normalisation \<open>checkVAT\<close> applies to its two inputs, before any \<open>try\<close>:
  \<open>String(countryCode || '').toUpperCase().trim()\<close> and
  \<open>String(vatNumber || '').replace(/\s+/g, '')\<close>.
\<close>

definition normalize_cc :: "runtime \<Rightarrow> jsval \<Rightarrow> js_error + string" where
  "normalize_cc rt c =
     (case to_String rt (js_or c (JStr [])) of Inl err \<Rightarrow> Inl err | Inr s \<Rightarrow> Inr (trim (toUpperCase s)))"

definition normalize_vn :: "runtime \<Rightarrow> jsval \<Rightarrow> js_error + string" where
  "normalize_vn rt v =
     (case to_String rt (js_or v (JStr [])) of Inl err \<Rightarrow> Inl err | Inr s \<Rightarrow> Inr (strip_ws s))"

text \<open>The write-only audit record of \<open>checkVAT\<close>, best effort.\<close>

definition audit_lookup :: "env \<Rightarrow> string \<Rightarrow> string \<Rightarrow> jsval \<Rightarrow> world \<Rightarrow> world" where
  "audit_lookup e cc vn em w =
     (let (t1, w1) = now_iso w;
          t = colons_to_dashes t1
      in putJSON e (''logs/'' @ t @ ''_'' @ (if vn = [] then ''unknown'' else vn) @ ''.json'')
           (JObj [(''t'', JStr t), (''countryCode'', JStr cc), (''vatNumber'', JStr vn), (''email'', em)]) w1)"

definition checkVAT :: "env \<Rightarrow> runtime \<Rightarrow> upstream \<Rightarrow> request \<Rightarrow> world \<Rightarrow> (js_error + jsval) \<times> world" where
  "checkVAT e rt vies rq w =
     (case normalize_cc rt (countryCode rq) of
        Inl err \<Rightarrow> (Inl err, w)
      | Inr cc \<Rightarrow>
          (case normalize_vn rt (vatNumber rq) of
             Inl err \<Rightarrow> (Inl err, w)
           | Inr vn \<Rightarrow>
               (let (t0, w1) = Date_now w;
                    lookupId = cc @ ''-'' @ vn @ ''-'' @ toString36 t0;
                    w2 = audit_lookup e cc vn (email rq) w1
                in case live_lookup e rt vies cc vn lookupId w2 of
                     (Inr payload, w3) \<Rightarrow> (Inr payload, w3)
                   | (Inl err, w3) \<Rightarrow> fallback e rt cc vn lookupId err w3)))"

text \<open>The legacy alias of validate.js.\<close>

definition validateVAT :: "env \<Rightarrow> runtime \<Rightarrow> upstream \<Rightarrow> request \<Rightarrow> world \<Rightarrow> (js_error + jsval) \<times> world" where
  "validateVAT e rt vies rq w = checkVAT e rt vies rq w"

section \<open>The legacy validator (lib/validate.js)\<close>

definition lib_cacheKey :: "runtime \<Rightarrow> jsval \<Rightarrow> jsval \<Rightarrow> js_error + string" where
  "lib_cacheKey rt c v =
     (case to_String rt c of
        Inl err \<Rightarrow> Inl err
      | Inr cs \<Rightarrow>
          (case to_String rt v of
             Inl err \<Rightarrow> Inl err
           | Inr vs \<Rightarrow> Inr (''cache/'' @ cs @ ''_'' @ vs @ ''.json'')))"

text \<open>The legacy cache read: everything after the bucket check is inside one \<open>try\<close>.\<close>

definition lib_getCached :: "env \<Rightarrow> runtime \<Rightarrow> jsval \<Rightarrow> jsval \<Rightarrow> world \<Rightarrow> jsval \<times> world" where
  "lib_getCached e rt c v w =
     (if \<not> bucket_set e then (JNull, w)
      else case lib_cacheKey rt c v of
             Inl err \<Rightarrow> (JNull, w)
           | Inr Key \<Rightarrow>
               (case s3_get Key w of
                  (None, w1) \<Rightarrow> (JNull, w1)
                | (Some data, w1) \<Rightarrow>
                    (let (now, w2) = Date_now w1
                     in case read_prop data ''cachedAt'' of
                          Inl err \<Rightarrow> (JNull, w2)
                        | Inr at \<Rightarrow>
                            (case new_Date rt at of
                               Inl err \<Rightarrow> (JNull, w2)
                             | Inr cachedAt \<Rightarrow>
                                 (if is_fresh (CACHE_TTL_MS e) now cachedAt
                                  then get_prop data ''payload'' else JNull, w2)))))"

definition lib_setCached :: "env \<Rightarrow> runtime \<Rightarrow> jsval \<Rightarrow> jsval \<Rightarrow> jsval \<Rightarrow> world \<Rightarrow> world" where
  "lib_setCached e rt c v payload w =
     (if \<not> bucket_set e then w
      else case lib_cacheKey rt c v of
             Inl err \<Rightarrow> w
           | Inr Key \<Rightarrow>
               (let (t, w1) = now_iso w
                in s3_put Key (JObj [(''cachedAt'', JStr t), (''payload'', payload)]) w1))"

definition is_boolean :: "jsval \<Rightarrow> bool" where
  "is_boolean v = (case v of JBool b \<Rightarrow> True | _ \<Rightarrow> False)"

text \<open>The request log of the legacy validator, written when a bucket is configured, inside a \<open>try\<close>.\<close>

definition lib_log_request :: "env \<Rightarrow> runtime \<Rightarrow> request \<Rightarrow> world \<Rightarrow> world" where
  "lib_log_request e rt rq w =
     (if bucket_set e then
        (let (timestamp, w') = now_iso w
         in case to_String rt (vatNumber rq) of
              Inl err \<Rightarrow> w'
            | Inr vat \<Rightarrow>
                s3_put (''logs/'' @ timestamp @ ''_'' @ vat @ ''.json'')
                  (JObj [(''timestamp'', JStr timestamp), (''countryCode'', countryCode rq),
                         (''vatNumber'', vatNumber rq), (''email'', email rq)]) w')
      else w)"

definition lib_validateVAT :: "env \<Rightarrow> runtime \<Rightarrow> upstream \<Rightarrow> request \<Rightarrow> world \<Rightarrow> (js_error + jsval) \<times> world" where
  "lib_validateVAT e rt vies rq w =
     (let isPlus = (VATFIX_PLUS e = Some ''1'');
          w1 = lib_log_request e rt rq w
      in if isPlus then
           (case vies (countryCode rq) (vatNumber rq) of
              Inr res \<Rightarrow>
                (Inr res,
                 if is_boolean (opt_prop res ''valid'')
                 then lib_setCached e rt (countryCode rq) (vatNumber rq) res w1 else w1)
            | Inl err \<Rightarrow>
                (let (cached, w2) = lib_getCached e rt (countryCode rq) (vatNumber rq) w1
                 in if truthy cached then
                      (Inr (JObj (set_props (own_props cached) [(''cached'', JBool True)])), w2)
                    else
                      (Inr (JObj [(''countryCode'', countryCode rq), (''vatNumber'', vatNumber rq),
                                  (''valid'', JBool False),
                                  (''error'', JStr (''fallback:'' @ failure_reason err))]), w2)))
         else
           (case vies (countryCode rq) (vatNumber rq) of
              Inr result \<Rightarrow> (Inr result, w1)
            | Inl err \<Rightarrow> (Inl err, w1)))"

definition lib_checkVAT :: "env \<Rightarrow> runtime \<Rightarrow> upstream \<Rightarrow> request \<Rightarrow> world \<Rightarrow> (js_error + jsval) \<times> world" where
  "lib_checkVAT e rt vies rq w = lib_validateVAT e rt vies rq w"

section \<open>Sequences of calls and the shape of results\<close>

text \<open>Sequential calls: each starts when the one before has returned or thrown.\<close>

fun calls :: "(world \<Rightarrow> 'r \<times> world) \<Rightarrow> nat \<Rightarrow> world \<Rightarrow> 'r list \<times> world" where
  "calls f 0 w = ([], w)"
| "calls f (Suc n) w = (let (r, w1) = f w; (rs, w2) = calls f n w1 in (r # rs, w2))"

text \<open>
  The count a meter object holds, an absent object counting as zero; and a world all of
  whose clock readings fall into the window that starts at \<open>win\<close>.
\<close>

definition counted :: "world \<Rightarrow> string \<Rightarrow> int \<Rightarrow> bool" where
  "counted w Key n =
     (case objects w Key of
        None \<Rightarrow> n = 0
      | Some doc \<Rightarrow> (case doc of JObj kvs \<Rightarrow> map_of kvs ''count'' = Some (JNum n) | _ \<Rightarrow> False))"

definition in_window :: "int \<Rightarrow> int \<Rightarrow> world \<Rightarrow> bool" where
  "in_window W win w = (window_of W (clock w) = win \<and> list_all (\<lambda>t. window_of W t = win) (later w))"

text \<open>The clock reading number \<open>n\<close> from now, the next one being number 0.\<close>

fun reading :: "nat \<Rightarrow> world \<Rightarrow> int" where
  "reading 0 w = clock w"
| "reading (Suc n) w = reading n (snd (Date_now w))"

text \<open>A value that \<open>String\<close> and a template literal convert without throwing.\<close>

definition printable :: "runtime \<Rightarrow> jsval \<Rightarrow> bool" where
  "printable rt v = (case to_String rt v of Inl err \<Rightarrow> False | Inr s \<Rightarrow> True)"

text \<open>Whether a call threw.\<close>

definition threw :: "js_error + jsval \<Rightarrow> bool" where
  "threw r = (case r of Inl err \<Rightarrow> True | Inr v \<Rightarrow> False)"

text \<open>
  The failure of the live lookup, if any: the error the upstream call rejects with, or the
  TypeError of reading a response that is \<open>undefined\<close> or \<open>null\<close>.
\<close>

definition upstream_failure :: "upstream \<Rightarrow> string \<Rightarrow> string \<Rightarrow> js_error option" where
  "upstream_failure vies cc vn =
     (case vies (JStr cc) (JStr vn) of
        Inl err \<Rightarrow> Some err
      | Inr res \<Rightarrow> (case read_prop res ''countryCode'' of Inl err \<Rightarrow> Some err | Inr rc \<Rightarrow> None))"

text \<open>
  The world in which \<open>checkVAT\<close> makes the live call for the normalised pair: the clock read
  once, the audit record written.
\<close>

definition before_lookup :: "env \<Rightarrow> string \<Rightarrow> string \<Rightarrow> jsval \<Rightarrow> world \<Rightarrow> world" where
  "before_lookup e cc vn em w = audit_lookup e cc vn em (snd (Date_now w))"

text \<open>The lookup identifier \<open>checkVAT\<close> gives the normalised pair.\<close>

definition lookupId_of :: "string \<Rightarrow> string \<Rightarrow> world \<Rightarrow> string" where
  "lookupId_of cc vn w = cc @ ''-'' @ vn @ ''-'' @ toString36 (clock w)"

text \<open>
  What the store holds under a key as a cache entry: whether the date of the entry can be
  read at all (\<open>cachedAt\<close> converts to a primitive), and whether the entry is fresh at the
  time \<open>now\<close>, which takes a date that can be read and is less than the TTL before \<open>now\<close>.
\<close>

definition entry_dated :: "runtime \<Rightarrow> jsval option \<Rightarrow> bool" where
  "entry_dated rt stored =
     (case stored of
        None \<Rightarrow> True
      | Some rec \<Rightarrow> (case new_Date rt (get_prop rec ''cachedAt'') of Inl err \<Rightarrow> False | Inr d \<Rightarrow> True))"

definition entry_fresh :: "runtime \<Rightarrow> int \<Rightarrow> int \<Rightarrow> jsval option \<Rightarrow> bool" where
  "entry_fresh rt ttl now stored =
     (case stored of
        None \<Rightarrow> False
      | Some rec \<Rightarrow>
          (case new_Date rt (get_prop rec ''cachedAt'') of
             Inl err \<Rightarrow> False
           | Inr d \<Rightarrow> is_fresh ttl now d))"

text \<open>
  The time value \<open>normalizeRequestDate\<close> reads from the upstream's \<open>requestDate\<close>, if
  any: that of a valid Date, or what the runtime parses from the text once the colon of a
  trailing offset is removed.
\<close>

definition parsed_requestDate :: "runtime \<Rightarrow> jsval \<Rightarrow> int option" where
  "parsed_requestDate rt rd =
     (case rd of JDate d \<Rightarrow> d | JStr s \<Rightarrow> parse_date rt (fix_offset s) | _ \<Rightarrow> None)"

text \<open>An object that has each of the listed properties, none of them \<open>undefined\<close>.\<close>

definition has_fields :: "jsval \<Rightarrow> string list \<Rightarrow> bool" where
  "has_fields v ks = list_all (\<lambda>k. get_prop v k \<noteq> JUndefined) ks"

definition declared_fields :: "string list" where
  "declared_fields = [''countryCode'', ''vatNumber'', ''valid'', ''name'', ''address'',
                      ''requestDate'', ''lookupId'', ''source'', ''cacheTtlMs'']"

text \<open>
  The shape of an instant as \<open>toISOString\<close> writes it: \<open>YYYY-MM-DDTHH:mm:ss.sssZ\<close>, the
  year with four digits or with a sign and six.
\<close>

fun iso_date_time :: "string \<Rightarrow> bool" where
  "iso_date_time [a, m1, m2, b, d1, d2, t, h1, h2, c, n1, n2, d, s1, s2, p, f1, f2, f3, z] =
     (a = CHR ''-'' \<and> is_digit m1 \<and> is_digit m2 \<and> b = CHR ''-'' \<and> is_digit d1 \<and> is_digit d2
      \<and> t = CHR ''T'' \<and> is_digit h1 \<and> is_digit h2 \<and> c = CHR '':'' \<and> is_digit n1 \<and> is_digit n2
      \<and> d = CHR '':'' \<and> is_digit s1 \<and> is_digit s2 \<and> p = CHR ''.''
      \<and> is_digit f1 \<and> is_digit f2 \<and> is_digit f3 \<and> z = CHR ''Z'')"
| "iso_date_time s = False"

definition iso_instant :: "string \<Rightarrow> bool" where
  "iso_instant s =
     ((list_all is_digit (take 4 s) \<and> iso_date_time (drop 4 s))
      \<or> ((take 1 s = ''+'' \<or> take 1 s = ''-'') \<and> list_all is_digit (take 6 (drop 1 s))
          \<and> iso_date_time (drop 7 s)))"

text \<open>The property \<open>k\<close> of the object a call returned, \<open>undefined\<close> when it threw.\<close>

definition returned :: "js_error + jsval \<Rightarrow> string \<Rightarrow> jsval" where
  "returned r k = (case r of Inl err \<Rightarrow> JUndefined | Inr v \<Rightarrow> get_prop v k)"

text \<open>A world in which every window a clock reading falls into starts within the range of Date.\<close>

definition windows_valid :: "int \<Rightarrow> world \<Rightarrow> bool" where
  "windows_valid W w =
     (valid_time (window_of W (clock w)) \<and> list_all (\<lambda>t. valid_time (window_of W t)) (later w))"

text \<open>
  One step after another, the first error ending the sequence; the cache key of a request
  as \<open>checkVAT\<close> forms it, from the pair it has normalised; and the key of the pair
  normalised a second time.
\<close>

definition and_then :: "js_error + 'a \<Rightarrow> ('a \<Rightarrow> js_error + 'b) \<Rightarrow> js_error + 'b" where
  "and_then r f = (case r of Inl err \<Rightarrow> Inl err | Inr x \<Rightarrow> f x)"

definition normalized_key :: "runtime \<Rightarrow> jsval \<Rightarrow> jsval \<Rightarrow> js_error + string" where
  "normalized_key rt c v =
     and_then (normalize_cc rt c) (\<lambda>cc.
     and_then (normalize_vn rt v) (\<lambda>vn.
       cacheKey rt (JStr cc) (JStr vn)))"

definition renormalized_key :: "runtime \<Rightarrow> jsval \<Rightarrow> jsval \<Rightarrow> js_error + string" where
  "renormalized_key rt c v =
     and_then (normalize_cc rt c) (\<lambda>cc.
     and_then (normalize_vn rt v) (\<lambda>vn.
     and_then (normalize_cc rt (JStr cc)) (\<lambda>cc2.
     and_then (normalize_vn rt (JStr vn)) (\<lambda>vn2.
       cacheKey rt (JStr cc2) (JStr vn2)))))"

section \<open>Concrete surroundings for the examples\<close>

text \<open>
  A runtime whose \<open>Date.parse\<close> reads one ISO instant, the first second of the epoch, and
  a configuration with a bucket, a cache life of three seconds, a limit of five requests and
  the other defaults.
\<close>

definition demo_runtime :: runtime where
  "demo_runtime =
     \<lparr>Date_parse = (\<lambda>s. if s = ''1970-01-01T00:00:01.000Z'' then Some 1000 else None),
      StringToNumber = (\<lambda>s. None),
      Date_toString = (\<lambda>d. ''Invalid Date'')\<rparr>"

definition demo_env :: env where
  "demo_env =
     \<lparr>S3_BUCKET = Some ''bucket'', VATFIX_CACHE_TTL_MS = Some 3000, VATFIX_WINDOW_MS = None,
      VATFIX_RPS_LIMIT = Some 5, VATFIX_PLUS = Some ''1''\<rparr>"

definition demo_world :: world where
  "demo_world = \<lparr>objects = Map.empty, clock = 1000, later = [], faults = []\<rparr>"

definition demo_request :: request where
  "demo_request =
     \<lparr>apiKey = JStr ''key1'', email = JStr ''a@b.eu'', countryCode = JStr '' de '',
      vatNumber = JStr ''012 345''\<rparr>"

text \<open>
  A request field as a JSON body can carry it, an object with a property \<open>toString\<close>; and
  a store that fails its next three requests.
\<close>

definition demo_unprintable :: jsval where
  "demo_unprintable = JObj [(''toString'', JNum 1)]"

definition demo_down_world :: world where
  "demo_down_world = \<lparr>objects = Map.empty, clock = 1000, later = [], faults = [True, True, True]\<rparr>"



text \<open>
  An upstream that is down, one that answers with the date format VIES uses, and a world
  whose cache holds an answer written at the first second of the epoch for the demo request,
  under the key of validate.js and under the key of lib/validate.js.
\<close>

definition demo_vies_down :: upstream where
  "demo_vies_down c v = Inl (Error ''ETIMEDOUT'')"

definition demo_vies_up :: upstream where
  "demo_vies_up c v =
     Inr (JObj [(''countryCode'', c), (''vatNumber'', v), (''requestDate'', JStr ''2025-08-06+02:00''),
                (''valid'', JBool True), (''name'', JStr ''MUSTERFIRMA GMBH''), (''address'', JStr ''BERLIN'')])"

definition demo_payload :: jsval where
  "demo_payload =
     JObj [(''countryCode'', JStr ''DE''), (''vatNumber'', JStr ''012345''),
           (''requestDate'', JStr ''2025-08-06+02:00''), (''valid'', JBool True),
           (''name'', JStr ''MUSTERFIRMA GMBH''), (''address'', JStr ''BERLIN'')]"

definition demo_cached_world :: world where
  "demo_cached_world =
     \<lparr>objects = [''cache/DE_012345.json'' \<mapsto>
                    JObj [(''cachedAt'', JStr ''1970-01-01T00:00:01.000Z''), (''payload'', demo_payload)],
                  ''cache/ de _012 345.json'' \<mapsto>
                    JObj [(''cachedAt'', JStr ''1970-01-01T00:00:01.000Z''), (''payload'', demo_payload)]],
      clock = 2000, later = [], faults = []\<rparr>"

section \<open>Normalisation of the cache key\<close>

lemma upper_char_idem: "upper_char (upper_char c) = upper_char c"
  by (auto simp: upper_char_def Let_def)

lemma last_dropWhile: "dropWhile P xs \<noteq> [] \<Longrightarrow> last (dropWhile P xs) = last xs"
  by (induction xs) (auto split: if_splits)

lemma dropWhile_rev_dropWhile:
  "dropWhile P (rev (dropWhile P (rev (dropWhile P s)))) = rev (dropWhile P (rev (dropWhile P s)))"
proof (cases "dropWhile P (rev (dropWhile P s)) = []")
  case True
  show ?thesis unfolding True by simp
next
  case False
  let ?t = "dropWhile P s"
  have t: "?t \<noteq> []"
  proof
    assume "?t = []"
    then have "dropWhile P (rev ?t) = []" by (simp only: rev.simps dropWhile.simps)
    with False show False by contradiction
  qed
  have "hd (rev (dropWhile P (rev ?t))) = last (dropWhile P (rev ?t))"
    using False by (simp add: hd_rev)
  also have "\<dots> = last (rev ?t)" using False by (rule last_dropWhile)
  also have "\<dots> = hd ?t" using t by (simp add: last_rev)
  finally have "\<not> P (hd (rev (dropWhile P (rev ?t))))"
    using t hd_dropWhile [of P s] by simp
  then show ?thesis
    using False by (simp add: dropWhile_eq_self_iff)
qed

lemma trim_idem: "trim (trim s) = trim s"
  by (simp add: trim_def dropWhile_rev_dropWhile)

lemma set_trim: "set (trim s) \<subseteq> set s"
  unfolding trim_def by (metis set_dropWhileD set_rev subsetI)

lemma toUpperCase_trim_toUpperCase: "toUpperCase (trim (toUpperCase s)) = trim (toUpperCase s)"
proof -
  have "\<forall>c \<in> set (trim (toUpperCase s)). upper_char c = c"
    using set_trim [of "toUpperCase s"] by (auto simp: toUpperCase_def upper_char_idem)
  then show ?thesis by (simp add: toUpperCase_def map_idI)
qed

lemma strip_ws_idem: "strip_ws (strip_ws s) = strip_ws s"
  by (simp add: strip_ws_def)

lemma to_String_or_empty: "to_String rt (js_or (JStr s) (JStr [])) = Inr s"
  by (simp add: js_or_def)

lemma normalize_cc_idem: "normalize_cc rt c = Inr cc \<Longrightarrow> normalize_cc rt (JStr cc) = Inr cc"
  by (auto simp: normalize_cc_def to_String_or_empty toUpperCase_trim_toUpperCase trim_idem
      split: sum.splits)

lemma normalize_vn_idem: "normalize_vn rt v = Inr vn \<Longrightarrow> normalize_vn rt (JStr vn) = Inr vn"
  by (auto simp: normalize_vn_def to_String_or_empty strip_ws_idem split: sum.splits)

lemma cacheKey_normalized:
  assumes "normalize_cc rt c = Inr cc" and "normalize_vn rt v = Inr vn"
  shows "cacheKey rt (JStr cc) (JStr vn) = Inr (''cache/'' @ cc @ ''_'' @ vn @ ''.json'')"
  using assms
  by (auto simp: cacheKey_def to_String_or_empty normalize_cc_def normalize_vn_def
      toUpperCase_trim_toUpperCase strip_ws_idem split: sum.splits)

lemma normalize_cc_examples:
  "normalize_cc rt (JStr '' de '') = Inr ''DE''"
  "normalize_cc rt (JStr ''de'') = Inr ''DE''"
  "normalize_cc rt (JStr ''DE'') = Inr ''DE''"
  by code_simp+

lemma normalize_vn_examples:
  "normalize_vn rt (JStr ''012 345'') = Inr ''012345''"
  "normalize_vn rt (JStr ''012345'') = Inr ''012345''"
  by code_simp+

lemma renormalized_key_eq: "renormalized_key rt c v = normalized_key rt c v"
proof (cases "normalize_cc rt c")
  case (Inl err)
  then show ?thesis by (simp add: renormalized_key_def normalized_key_def and_then_def)
next
  case cc: (Inr cc)
  show ?thesis
  proof (cases "normalize_vn rt v")
    case (Inl err)
    with cc show ?thesis by (simp add: renormalized_key_def normalized_key_def and_then_def)
  next
    case vn: (Inr vn)
    from cc vn show ?thesis
      by (simp add: renormalized_key_def normalized_key_def and_then_def
          normalize_cc_idem [OF cc] normalize_vn_idem [OF vn])
  qed
qed

text \<open>
  Claim C8. The cache key of a pair that \<open>checkVAT\<close> has normalised (country code upper-cased
  and trimmed, VAT number stripped of white space) is the key of the pair normalised once
  more: normalising twice gives the same key as normalising once, for all inputs, those
  whose conversion to a string throws included (then both throw the same). The inputs
  \<open>" de "\<close>, \<open>"de"\<close> and \<open>"DE"\<close> get one key, and so do \<open>"012 345"\<close> and \<open>"012345"\<close>.
\<close>

theorem cacheKey_normalization_idempotent:
  "renormalized_key rt c v = normalized_key rt c v
   \<and> normalized_key rt (JStr '' de '') v = normalized_key rt (JStr ''DE'') v
   \<and> normalized_key rt (JStr ''de'') v = normalized_key rt (JStr ''DE'') v
   \<and> normalized_key rt c (JStr ''012 345'') = normalized_key rt c (JStr ''012345'')"
  by (simp add: renormalized_key_eq normalized_key_def normalize_cc_examples normalize_vn_examples)

theorem cacheKey_normalization_idempotent_witness:
  "renormalized_key demo_runtime (JStr '' de '') (JStr ''012 345'') = Inr ''cache/DE_012345.json''
   \<and> normalized_key demo_runtime (JStr '' de '') (JStr ''012 345'') = Inr ''cache/DE_012345.json''"
proof -
  note keys = cacheKey_normalization_idempotent [of demo_runtime "JStr '' de ''" "JStr ''012 345''"]
  have "normalized_key demo_runtime (JStr '' de '') (JStr ''012 345'') = Inr ''cache/DE_012345.json''"
    by code_simp
  with keys show ?thesis by simp
qed

section \<open>The meter, one call after another\<close>

lemma Date_now_fst [simp]: "fst (Date_now w) = clock w"
  by (simp add: Date_now_def)

lemma Date_now_objects [simp]: "objects (snd (Date_now w)) = objects w"
  by (simp add: Date_now_def split: list.splits)

lemma Date_now_faults [simp]: "faults (snd (Date_now w)) = faults w"
  by (simp add: Date_now_def split: list.splits)

lemma Date_now_in_window: "in_window W win w \<Longrightarrow> in_window W win (snd (Date_now w))"
  by (auto simp: Date_now_def in_window_def split: list.splits)

lemma s3_get_ok: "faults w = [] \<Longrightarrow> s3_get Key w = (objects w Key, w)"
  by (simp add: s3_get_def)

lemma s3_put_ok: "faults w = [] \<Longrightarrow> s3_put Key data w = w\<lparr>objects := (objects w)(Key \<mapsto> json data)\<rparr>"
  by (simp add: s3_put_def)

lemma in_window_objects [simp]: "in_window W win (w\<lparr>objects := m\<rparr>) = in_window W win w"
  by (simp add: in_window_def)

lemma map_of_json_props_num:
  "map_of kvs k = Some (JNum n) \<Longrightarrow> map_of (json_props kvs) k = Some (JNum n)"
  by (induction kvs) (auto split: if_splits)

lemma counted_put:
  "map_of kvs ''count'' = Some (JNum n) \<Longrightarrow>
   counted (w\<lparr>objects := (objects w)(Key \<mapsto> json (JObj kvs))\<rparr>) Key n"
  by (simp add: counted_def map_of_json_props_num)

lemma counted_other:
  "Key' \<noteq> Key \<Longrightarrow> counted (w\<lparr>objects := (objects w)(Key' \<mapsto> v)\<rparr>) Key n = counted w Key n"
  by (simp add: counted_def)

lemma counted_Date_now [simp]: "counted (snd (Date_now w)) Key n = counted w Key n"
  by (simp add: counted_def)



lemma put_counted:
  assumes "faults w = []" and "map_of kvs ''count'' = Some (JNum m)"
  shows "faults (s3_put Key (JObj kvs) w) = []"
    and "counted (s3_put Key (JObj kvs) w) Key m"
    and "in_window W win (s3_put Key (JObj kvs) w) = in_window W win w"
  using assms by (simp_all add: s3_put_ok counted_put del: json.simps)

lemma put_other:
  assumes "faults w = []" and "Key' \<noteq> Key"
  shows "faults (s3_put Key' v w) = []"
    and "counted (s3_put Key' v w) Key m = counted w Key m"
    and "in_window W win (s3_put Key' v w) = in_window W win w"
  using assms by (simp_all add: s3_put_ok counted_other del: json.simps)

lemma num_or_zero [simp]: "num_or (Some n) 0 = n"
  by (simp add: num_or_def)


lemma ulp_of_small: "a < 9007199254740992 \<Longrightarrow> ulp_of a = 1"
  by (simp add: ulp_of.simps)

lemma ulp_of_top: "ulp_of 9007199254740992 = 2"
  by (simp add: ulp_of.simps [of 9007199254740992] ulp_of_small)

lemma round_double_exact:
  assumes "\<bar>x\<bar> \<le> 9007199254740992"
  shows "round_double x = x"
proof (cases "\<bar>x\<bar> = 9007199254740992")
  case True
  have "round_double x = sgn x * 9007199254740992"
    using True by (simp add: round_double_def ulp_of_top Let_def)
  also have "\<dots> = x"
    using True by (auto simp: sgn_if abs_if split: if_splits)
  finally show ?thesis .
next
  case False
  with assms have "\<bar>x\<bar> < 9007199254740992" by simp
  then have "round_double x = sgn x * \<bar>x\<bar>"
    by (simp add: round_double_def ulp_of_small Let_def)
  also have "\<dots> = x"
    by (auto simp: sgn_if abs_if)
  finally show ?thesis .
qed

lemma js_add_exact: "- 9007199254740993 \<le> n \<Longrightarrow> n < 9007199254740992 \<Longrightarrow> js_add n 1 = n + 1"
  unfolding js_add_def by (rule round_double_exact) simp



lemma printable_or [simp]: "printable rt (js_or v (JStr s)) = printable rt v"
  by (cases v) (simp_all add: printable_def js_or_def)

lemma to_String_unprintable: "\<not> printable rt v \<Longrightarrow> to_String rt v = Inl not_primitive"
  by (cases v) (simp_all add: printable_def split: if_splits)

lemma to_String_printable: "printable rt v \<Longrightarrow> \<exists>s. to_String rt v = Inr s"
  by (simp add: printable_def split: sum.splits)

lemma printable_iff: "printable rt v \<longleftrightarrow> (\<exists>s. to_String rt v = Inr s)"
  by (auto simp: printable_def split: sum.splits)




lemma lib_meter_key_not_log: "''logs/'' @ rest \<noteq> lib_meterKey_of k window"
  by (simp add: lib_meterKey_of_def)

lemma counted_lib_doc:
  assumes "counted w Key n"
  shows "\<exists>kvs. (case objects w Key of None \<Rightarrow> JObj ((''count'', JNum 0) # rest) | Some d \<Rightarrow> d) = JObj kvs
               \<and> map_of kvs ''count'' = Some (JNum n)"
  using assms by (auto simp: counted_def split: option.splits jsval.splits)

lemma increment_count_num:
  "map_of kvs ''count'' = Some (JNum n) \<Longrightarrow>
   increment_count rt (JObj kvs) =
     Inr (JObj (AList.update ''count'' (JNum (js_add n 1)) kvs), Some (js_add n 1))"
  by (simp add: increment_count_def read_prop_def num_val_def)

lemma lib_meterAndCheck_step:
  assumes cfg: "bucket_set e"
    and k: "to_String rt (apiKey rq) = Inr k"
    and ok: "faults w = []"
    and win: "in_window (WINDOW_MS e) win w"
    and cnt: "counted w (lib_meterKey_of k win) n"
  shows "\<exists>w'. lib_meterAndCheck e rt rq w =
           (if js_add n 1 > lib_LIMIT e
            then Inr (JObj [(''allowed'', JBool False), (''reason'', JStr ''rate_limit_exceeded'')])
            else if printable rt (vatNumber rq) then Inr (JObj [(''allowed'', JBool True)])
            else Inl not_primitive, w')
         \<and> faults w' = []
         \<and> counted w' (lib_meterKey_of k win) (js_add n 1)
         \<and> in_window (WINDOW_MS e) win w'"
proof -
  let ?Key = "lib_meterKey_of k win"
  let ?w1 = "snd (Date_now w)"
  let ?c = "js_add n 1"
  let ?ans = "if ?c > lib_LIMIT e
            then Inr (JObj [(''allowed'', JBool False), (''reason'', JStr ''rate_limit_exceeded'')])
            else if printable rt (vatNumber rq) then Inr (JObj [(''allowed'', JBool True)])
            else Inl not_primitive"
  have w1: "faults ?w1 = []" "counted ?w1 ?Key n" "in_window (WINDOW_MS e) win ?w1"
    using ok cnt win by (simp_all add: Date_now_in_window)
  have now: "window_of (WINDOW_MS e) (clock w) = win"
    using win by (simp add: in_window_def)
  obtain kvs where doc: "(case objects w ?Key of
        None \<Rightarrow> JObj [(''count'', JNum 0), (''window'', JNum win), (''key'', apiKey rq)]
      | Some d \<Rightarrow> d) = JObj kvs"
    and c: "map_of kvs ''count'' = Some (JNum n)"
    using counted_lib_doc [OF cnt] by blast
  have doc': "(case objects w ?Key of
        None \<Rightarrow> JObj [(''count'', JNum 0),
                        (''window'', JNum (window_of (WINDOW_MS e) (fst (Date_now w)))),
                        (''key'', apiKey rq)]
      | Some d \<Rightarrow> d) = JObj kvs"
    unfolding Date_now_fst now by (rule doc)
  let ?kvs' = "AList.update ''count'' (JNum ?c) kvs"
  have c': "map_of ?kvs' ''count'' = Some (JNum ?c)"
    by (simp add: update_conv')
  let ?w3 = "s3_put ?Key (JObj ?kvs') ?w1"
  note w3 = put_counted [where Key = ?Key, OF w1(1) c']
  have get: "s3_get ?Key ?w1 = (objects w ?Key, ?w1)"
    using w1(1) by (simp add: s3_get_ok)
  show ?thesis
  proof (cases "?c > lib_LIMIT e")
    case True
    have "lib_meterAndCheck e rt rq w =
        (Inr (JObj [(''allowed'', JBool False), (''reason'', JStr ''rate_limit_exceeded'')]), ?w3)"
      using True cfg
      by (simp add: lib_meterAndCheck_def split_beta now k get doc doc' increment_count_num [OF c]
          exceeds_def del: json.simps)
    with True w3 w1(3) have "lib_meterAndCheck e rt rq w = (?ans, ?w3)
         \<and> faults ?w3 = [] \<and> counted ?w3 ?Key ?c \<and> in_window (WINDOW_MS e) win ?w3"
      by simp
    then show ?thesis by (rule exI)
  next
    case False
    let ?w4 = "snd (Date_now ?w3)"
    have f4: "faults ?w4 = []" using w3(1) by simp
    have c4: "counted ?w4 ?Key ?c" using w3(2) by simp
    have i4: "in_window (WINDOW_MS e) win ?w4"
      using w3(3) w1(3) Date_now_in_window by simp
    show ?thesis
    proof (cases "printable rt (vatNumber rq)")
      case no: False
      have "to_String rt (vatNumber rq) = Inl not_primitive"
        using no by (rule to_String_unprintable)
      then have "lib_meterAndCheck e rt rq w = (Inl not_primitive, ?w4)"
        using False cfg
        by (simp add: lib_meterAndCheck_def split_beta now k get doc doc' increment_count_num [OF c]
            exceeds_def Let_def del: json.simps)
      with False no f4 c4 i4 have "lib_meterAndCheck e rt rq w = (?ans, ?w4)
         \<and> faults ?w4 = [] \<and> counted ?w4 ?Key ?c \<and> in_window (WINDOW_MS e) win ?w4"
        by simp
      then show ?thesis by (rule exI)
    next
      case yes: True
      then obtain vat where vat: "to_String rt (vatNumber rq) = Inr vat"
        using to_String_printable by blast
      define t where "t = toISOString (clock ?w3)"
      define logKey where "logKey = ''logs/'' @ t @ ''_'' @ vat @ ''.json''"
      define audit where "audit = JObj [(''t'', JStr t), (''apiKey'', apiKey rq), (''email'', email rq),
        (''countryCode'', countryCode rq), (''vatNumber'', vatNumber rq)]"
      let ?w5 = "s3_put logKey audit ?w4"
      have ne: "logKey \<noteq> ?Key"
        using lib_meter_key_not_log by (simp only: logKey_def not_False_eq_True)
      note w5 = put_other [where Key = ?Key and Key' = logKey and v = audit, OF f4 ne]
      have res: "lib_meterAndCheck e rt rq w = (Inr (JObj [(''allowed'', JBool True)]), ?w5)"
        using False cfg vat
        by (simp add: lib_meterAndCheck_def split_beta now k get doc doc' increment_count_num [OF c]
            exceeds_def t_def logKey_def audit_def Let_def del: json.simps)
      have p2: "counted ?w5 ?Key ?c"
        using w5(2) c4 by simp
      have p3: "in_window (WINDOW_MS e) win ?w5"
        using w5(3) i4 by simp
      from res False yes w5(1) p2 p3 have "lib_meterAndCheck e rt rq w = (?ans, ?w5)
         \<and> faults ?w5 = [] \<and> counted ?w5 ?Key ?c \<and> in_window (WINDOW_MS e) win ?w5"
        by simp
      then show ?thesis by (rule exI)
    qed
  qed
qed

lemma lib_meterAndCheck_calls:
  assumes cfg: "bucket_set e"
    and k: "to_String rt (apiKey rq) = Inr k"
    and ok: "faults w = []"
    and win: "in_window (WINDOW_MS e) win w"
    and cnt: "counted w (lib_meterKey_of k win) n"
    and lo: "- 9007199254740993 \<le> n" and hi: "n + int m \<le> 9007199254740992"
  shows "fst (calls (lib_meterAndCheck e rt rq) m w) =
           map (\<lambda>j. if n + 1 + int j > lib_LIMIT e
                     then Inr (JObj [(''allowed'', JBool False), (''reason'', JStr ''rate_limit_exceeded'')])
                     else if printable rt (vatNumber rq) then Inr (JObj [(''allowed'', JBool True)])
                     else Inl not_primitive) [0..<m]
         \<and> counted (snd (calls (lib_meterAndCheck e rt rq) m w)) (lib_meterKey_of k win) (n + int m)
         \<and> faults (snd (calls (lib_meterAndCheck e rt rq) m w)) = []
         \<and> in_window (WINDOW_MS e) win (snd (calls (lib_meterAndCheck e rt rq) m w))"
  using ok win cnt lo hi
proof (induction m arbitrary: w n)
  case 0
  then show ?case by simp
next
  case (Suc m)
  have exact: "js_add n 1 = n + 1"
    using Suc.prems(4) Suc.prems(5) by (intro js_add_exact) simp_all
  from lib_meterAndCheck_step [OF cfg k Suc.prems(1) Suc.prems(2) Suc.prems(3)]
  obtain w' where step: "lib_meterAndCheck e rt rq w =
           (if n + 1 > lib_LIMIT e
            then Inr (JObj [(''allowed'', JBool False), (''reason'', JStr ''rate_limit_exceeded'')])
            else if printable rt (vatNumber rq) then Inr (JObj [(''allowed'', JBool True)])
            else Inl not_primitive, w')"
    and w': "faults w' = []"
      "counted w' (lib_meterKey_of k win) (n + 1)"
      "in_window (WINDOW_MS e) win w'"
    unfolding exact by blast
  have "- 9007199254740993 \<le> n + 1" "n + 1 + int m \<le> 9007199254740992"
    using Suc.prems(4) Suc.prems(5) by simp_all
  note IH = Suc.IH [OF w'(1) w'(3) w'(2) this]
  show ?case
    using IH
    by (simp add: step split_beta map_upt_Suc add.assoc del: upt_Suc)
qed

section \<open>Facts about the concrete surroundings\<close>


lemma toISOString_1000: "toISOString 1000 = ''1970-01-01T00:00:01.000Z''"
  by code_simp


lemma demo_facts:
  "bucket_set demo_env"
  "faults demo_world = []"
  "in_window (WINDOW_MS demo_env) 0 demo_world"
  "truthy (apiKey demo_request)"
  "valid_time 0"
  "LIMIT demo_env = int 5"
  "lib_LIMIT demo_env = int 5"
  "objects demo_world k = None"
  "counted demo_world k 0"
  "to_String demo_runtime (apiKey demo_request) = Inr ''key1''"
  "printable demo_runtime (vatNumber demo_request)"
  by (simp_all add: demo_env_def demo_world_def demo_request_def bucket_set_def in_window_def
      WINDOW_MS_def LIMIT_def lib_LIMIT_def num_or_def window_of_def valid_time_def counted_def
      printable_def)


section \<open>Admission within the quota\<close>










section \<open>The stored count\<close>







section \<open>Failing open\<close>

lemma s3_get_fault: "faults w = True # fs \<Longrightarrow> s3_get Key w = (None, w\<lparr>faults := fs\<rparr>)"
  by (simp add: s3_get_def)

lemma s3_put_fault: "faults w = True # fs \<Longrightarrow> s3_put Key data w = w\<lparr>faults := fs\<rparr>"
  by (simp add: s3_put_def)

lemma Date_now_windows_valid: "windows_valid W w \<Longrightarrow> windows_valid W (snd (Date_now w))"
  by (auto simp: Date_now_def windows_valid_def split: list.splits)

lemma windows_valid_faults [simp]: "windows_valid W (w\<lparr>faults := fs\<rparr>) = windows_valid W w"
  by (simp add: windows_valid_def)

lemma Date_now_faults_update: "snd (Date_now (w\<lparr>faults := fs\<rparr>)) = (snd (Date_now w))\<lparr>faults := fs\<rparr>"
  by (simp add: Date_now_def split: list.splits)

lemma js_add_first: "js_add 0 1 = 1"
  using js_add_exact [of 0] by simp

lemma meterAndCheck_unreachable:
  assumes cfg: "bucket_set e" "truthy (apiKey rq)"
    and key: "printable rt (apiKey rq)"
    and down: "faults w = True # True # True # fs"
    and win: "windows_valid (WINDOW_MS e) w"
    and lim: "1 \<le> LIMIT e"
  shows "returned (fst (meterAndCheck e rt rq w)) ''allowed'' = JBool True"
    and "faults (snd (meterAndCheck e rt rq w)) = (if printable rt (vatNumber rq) then fs else True # fs)"
    and "objects (snd (meterAndCheck e rt rq w)) = objects w"
    and "windows_valid (WINDOW_MS e) (snd (meterAndCheck e rt rq w))"
proof -
  obtain k where k: "to_String rt (apiKey rq) = Inr k"
    using key to_String_printable by blast
  let ?w1 = "snd (Date_now w)"
  let ?w3 = "snd (Date_now (?w1\<lparr>faults := True # fs\<rparr>))"
  have v: "valid_time (window_of (WINDOW_MS e) (clock w))"
    using win by (simp add: windows_valid_def)
  have f1: "faults ?w1 = True # True # True # fs"
    using down by simp
  have w3: "windows_valid (WINDOW_MS e) ?w3"
    using win by (simp add: Date_now_windows_valid)
  have "\<exists>r. meterAndCheck e rt rq w =
      (Inr (allowed_with r), if printable rt (vatNumber rq) then ?w3\<lparr>faults := fs\<rparr> else ?w3)"
  proof (cases "printable rt (vatNumber rq)")
    case True
    then obtain vat where vat: "to_String rt (js_or (vatNumber rq) (JStr ''unknown'')) = Inr vat"
      using to_String_printable [of rt "js_or (vatNumber rq) (JStr ''unknown'')"] by auto
    have "meterAndCheck e rt rq w =
        (Inr (allowed_with (JNum (max 0 (js_sub (LIMIT e) 1)))), ?w3\<lparr>faults := fs\<rparr>)"
      using cfg v lim f1 k vat
      by (simp add: meterAndCheck_def split_beta TimeClip_def Date_toISOString_def meter_try_def
          meter_getJSON_def meter_putJSON_def s3_get_fault s3_put_fault js_or_def Let_def
          js_add_first del: json.simps)
    with True show ?thesis by auto
  next
    case False
    then have vat: "to_String rt (js_or (vatNumber rq) (JStr ''unknown'')) = Inl not_primitive"
      by (intro to_String_unprintable) simp
    have "meterAndCheck e rt rq w = (Inr (allowed_with JUndefined), ?w3)"
      using cfg v lim f1 k vat
      by (simp add: meterAndCheck_def split_beta TimeClip_def Date_toISOString_def meter_try_def
          meter_getJSON_def meter_putJSON_def s3_get_fault s3_put_fault js_or_def Let_def
          js_add_first del: json.simps)
    with False show ?thesis by auto
  qed
  then obtain r where res: "meterAndCheck e rt rq w =
      (Inr (allowed_with r), if printable rt (vatNumber rq) then ?w3\<lparr>faults := fs\<rparr> else ?w3)"
    by blast
  show "returned (fst (meterAndCheck e rt rq w)) ''allowed'' = JBool True"
    by (simp add: res returned_def allowed_with_def)
  show "faults (snd (meterAndCheck e rt rq w)) = (if printable rt (vatNumber rq) then fs else True # fs)"
    by (simp add: res)
  show "objects (snd (meterAndCheck e rt rq w)) = objects w"
    by (simp add: res)
  show "windows_valid (WINDOW_MS e) (snd (meterAndCheck e rt rq w))"
    using w3 by (simp add: res)
qed

lemma replicate_three_more:
  assumes "3 * Suc m \<le> j"
  shows "replicate j x = x # x # x # replicate (j - 3) x"
proof -
  from assms have "j = Suc (Suc (Suc (j - 3)))" by simp
  then have "replicate j x = replicate (Suc (Suc (Suc (j - 3)))) x" by simp
  then show ?thesis by simp
qed

lemma three_less: "3 * Suc m \<le> j \<Longrightarrow> 3 * m \<le> j - 3"
  by simp

lemma meterAndCheck_unreachable_calls:
  assumes cfg: "bucket_set e" "truthy (apiKey rq)"
    and key: "printable rt (apiKey rq)"
    and lim: "1 \<le> LIMIT e"
    and down: "faults w = replicate j True @ fs" "3 * m \<le> j"
    and win: "windows_valid (WINDOW_MS e) w"
  shows "map (\<lambda>r. returned r ''allowed'') (fst (calls (meterAndCheck e rt rq) m w)) = replicate m (JBool True)
         \<and> objects (snd (calls (meterAndCheck e rt rq) m w)) = objects w"
  using down win
proof (induction m arbitrary: w j)
  case 0
  then show ?case by simp
next
  case (Suc m)
  note three = replicate_three_more [OF Suc.prems(2), of True] three_less [OF Suc.prems(2)]
  from Suc.prems(1) have f: "faults w = True # True # True # (replicate (j - 3) True @ fs)"
    by (simp only: three(1) append_Cons)
  note step = meterAndCheck_unreachable [OF cfg key f Suc.prems(3) lim]
  let ?j' = "if printable rt (vatNumber rq) then j - 3 else Suc (j - 3)"
  have f': "faults (snd (meterAndCheck e rt rq w)) = replicate ?j' True @ fs"
    using step(2) by simp
  have j': "3 * m \<le> ?j'"
    using three(2) by simp
  from Suc.IH [OF f' j' step(4)] step(1) step(3) show ?case
    by (simp add: split_beta)
qed

lemma meterAndCheck_unconfigured_calls:
  assumes "\<not> bucket_set e \<or> \<not> truthy (apiKey rq)"
  shows "calls (meterAndCheck e rt rq) m w = (replicate m (Inr (allowed_with JUndefined)), w)"
proof (induction m)
  case 0
  show ?case by simp
next
  case (Suc m)
  have "meterAndCheck e rt rq w = (Inr (allowed_with JUndefined), w)"
    using assms by (auto simp: meterAndCheck_def)
  with Suc show ?case by simp
qed

lemma lib_meterAndCheck_unconfigured_calls:
  assumes "\<not> bucket_set e"
  shows "calls (lib_meterAndCheck e rt rq) m w = (replicate m (Inr (JObj [(''allowed'', JBool True)])), w)"
proof (induction m)
  case 0
  show ?case by simp
next
  case (Suc m)
  have "lib_meterAndCheck e rt rq w = (Inr (JObj [(''allowed'', JBool True)]), w)"
    using assms by (simp add: lib_meterAndCheck_def)
  with Suc show ?case by simp
qed

lemma lib_meterAndCheck_unreachable:
  assumes cfg: "bucket_set e"
    and key: "printable rt (apiKey rq)" and vn: "printable rt (vatNumber rq)"
    and down: "faults w = True # True # True # fs"
    and lim: "1 \<le> lib_LIMIT e"
  shows "\<exists>w'. lib_meterAndCheck e rt rq w = (Inr (JObj [(''allowed'', JBool True)]), w')
           \<and> faults w' = fs \<and> objects w' = objects w"
proof -
  obtain k where k: "to_String rt (apiKey rq) = Inr k"
    using key to_String_printable by blast
  obtain vat where vat: "to_String rt (vatNumber rq) = Inr vat"
    using vn to_String_printable by blast
  let ?w1 = "snd (Date_now w)"
  let ?w' = "(snd (Date_now (?w1\<lparr>faults := True # fs\<rparr>)))\<lparr>faults := fs\<rparr>"
  have f1: "faults ?w1 = True # True # True # fs"
    using down by simp
  have "lib_meterAndCheck e rt rq w = (Inr (JObj [(''allowed'', JBool True)]), ?w')"
    using cfg lim f1 k vat
    by (simp add: lib_meterAndCheck_def split_beta s3_get_fault s3_put_fault increment_count_def
        read_prop_def num_val_def exceeds_def Let_def js_add_first del: json.simps)
  moreover have "faults ?w' = fs" "objects ?w' = objects w"
    by simp_all
  ultimately show ?thesis by blast
qed

lemma lib_meterAndCheck_unreachable_calls:
  assumes cfg: "bucket_set e"
    and key: "printable rt (apiKey rq)" and vn: "printable rt (vatNumber rq)"
    and lim: "1 \<le> lib_LIMIT e"
    and down: "faults w = replicate j True @ fs" "3 * m \<le> j"
  shows "fst (calls (lib_meterAndCheck e rt rq) m w) = replicate m (Inr (JObj [(''allowed'', JBool True)]))
         \<and> objects (snd (calls (lib_meterAndCheck e rt rq) m w)) = objects w"
  using down
proof (induction m arbitrary: w j)
  case 0
  then show ?case by simp
next
  case (Suc m)
  note three = replicate_three_more [OF Suc.prems(2), of True] three_less [OF Suc.prems(2)]
  from Suc.prems(1) have "faults w = True # True # True # (replicate (j - 3) True @ fs)"
    by (simp only: three(1) append_Cons)
  from lib_meterAndCheck_unreachable [OF cfg key vn this lim]
  obtain w' where step: "lib_meterAndCheck e rt rq w = (Inr (JObj [(''allowed'', JBool True)]), w')"
    and w': "faults w' = replicate (j - 3) True @ fs" "objects w' = objects w"
    by blast
  from Suc.IH [OF w'(1) three(2)] w'(2) show ?case
    by (simp add: step split_beta)
qed

text \<open>
  Claim C5, as amended. \<open>meterAndCheck\<close> of meter.js returns \<open>allowed: true\<close> on every call,
  whatever their number, when no bucket is configured or the request has no API key (the
  store is not touched and the answer is \<open>{allowed: true, remaining: undefined}\<close>), and when
  the requests to the store fail (three for each call at most), for an API key that
  converts to a string, a limit of at least 1 and windows within the range of Date; it
  throws nothing and stores nothing. The legacy \<open>meterAndCheck\<close> of lib/meter.js returns
  \<open>{allowed: true}\<close> when no bucket is configured, and when the requests to the store fail,
  for an API key and a VAT number that convert to strings and a limit of at least 1; it
  has no guard on the API key.
\<close>

theorem meter_fails_open:
  "(\<not> bucket_set e \<or> \<not> truthy (apiKey rq)
      \<longrightarrow> calls (meterAndCheck e rt rq) m w = (replicate m (Inr (allowed_with JUndefined)), w))
   \<and> (bucket_set e \<and> truthy (apiKey rq) \<and> printable rt (apiKey rq) \<and> 1 \<le> LIMIT e
        \<and> windows_valid (WINDOW_MS e) w \<and> faults w = replicate j True @ fs \<and> 3 * m \<le> j
      \<longrightarrow> map (\<lambda>r. returned r ''allowed'') (fst (calls (meterAndCheck e rt rq) m w))
            = replicate m (JBool True)
          \<and> objects (snd (calls (meterAndCheck e rt rq) m w)) = objects w)
   \<and> (\<not> bucket_set e
      \<longrightarrow> calls (lib_meterAndCheck e rt rq) m w = (replicate m (Inr (JObj [(''allowed'', JBool True)])), w))
   \<and> (bucket_set e \<and> printable rt (apiKey rq) \<and> printable rt (vatNumber rq) \<and> 1 \<le> lib_LIMIT e
        \<and> faults w = replicate j True @ fs \<and> 3 * m \<le> j
      \<longrightarrow> fst (calls (lib_meterAndCheck e rt rq) m w) = replicate m (Inr (JObj [(''allowed'', JBool True)]))
          \<and> objects (snd (calls (lib_meterAndCheck e rt rq) m w)) = objects w)"
  using meterAndCheck_unconfigured_calls [of e rq rt m w]
    meterAndCheck_unreachable_calls [of e rq rt w j fs m]
    lib_meterAndCheck_unconfigured_calls [of e rt rq m w]
    lib_meterAndCheck_unreachable_calls [of e rt rq w j fs m]
  by blast

theorem meter_fails_open_witness:
  "fst (calls (meterAndCheck (demo_env\<lparr>S3_BUCKET := None\<rparr>) demo_runtime demo_request) 200 demo_world)
     = replicate 200 (Inr (allowed_with JUndefined))
   \<and> fst (calls (meterAndCheck demo_env demo_runtime (demo_request\<lparr>apiKey := JStr []\<rparr>)) 200 demo_world)
     = replicate 200 (Inr (allowed_with JUndefined))
   \<and> map (\<lambda>r. returned r ''allowed'')
       (fst (calls (meterAndCheck demo_env demo_runtime demo_request) 200
               (demo_world\<lparr>faults := replicate 600 True\<rparr>)))
     = replicate 200 (JBool True)
   \<and> fst (calls (lib_meterAndCheck (demo_env\<lparr>S3_BUCKET := None\<rparr>) demo_runtime demo_request) 200 demo_world)
     = replicate 200 (Inr (JObj [(''allowed'', JBool True)]))
   \<and> fst (calls (lib_meterAndCheck demo_env demo_runtime demo_request) 200
             (demo_world\<lparr>faults := replicate 600 True\<rparr>))
     = replicate 200 (Inr (JObj [(''allowed'', JBool True)]))"
proof -
  have off: "\<not> bucket_set (demo_env\<lparr>S3_BUCKET := None\<rparr>)"
    by (simp add: bucket_set_def)
  have nokey: "\<not> truthy (apiKey (demo_request\<lparr>apiKey := JStr []\<rparr>))"
    by simp
  have down: "faults (demo_world\<lparr>faults := replicate 600 True\<rparr>) = replicate 600 True @ []"
    "3 * 200 \<le> (600::nat)"
    by simp_all
  have valid: "windows_valid (WINDOW_MS demo_env) (demo_world\<lparr>faults := replicate 600 True\<rparr>)"
    by (simp add: windows_valid_def demo_world_def demo_env_def WINDOW_MS_def num_or_def
        window_of_def valid_time_def)
  have key: "printable demo_runtime (apiKey demo_request)"
    by (simp add: printable_def demo_request_def)
  note a = meter_fails_open [of "demo_env\<lparr>S3_BUCKET := None\<rparr>" demo_request demo_runtime 200 demo_world]
  note b = meter_fails_open [of demo_env "demo_request\<lparr>apiKey := JStr []\<rparr>" demo_runtime 200 demo_world]
  note c = meter_fails_open [of demo_env demo_request demo_runtime 200
      "demo_world\<lparr>faults := replicate 600 True\<rparr>" 600 "[]"]
  from a off have 1: "fst (calls (meterAndCheck (demo_env\<lparr>S3_BUCKET := None\<rparr>) demo_runtime demo_request) 200 demo_world)
     = replicate 200 (Inr (allowed_with JUndefined))"
    and 4: "fst (calls (lib_meterAndCheck (demo_env\<lparr>S3_BUCKET := None\<rparr>) demo_runtime demo_request) 200 demo_world)
     = replicate 200 (Inr (JObj [(''allowed'', JBool True)]))"
    by simp_all
  from b nokey have 2: "fst (calls (meterAndCheck demo_env demo_runtime (demo_request\<lparr>apiKey := JStr []\<rparr>)) 200 demo_world)
     = replicate 200 (Inr (allowed_with JUndefined))"
    by simp
  from c down valid key demo_facts(1,4,6,7,11)
  have 3: "map (\<lambda>r. returned r ''allowed'')
       (fst (calls (meterAndCheck demo_env demo_runtime demo_request) 200
               (demo_world\<lparr>faults := replicate 600 True\<rparr>)))
     = replicate 200 (JBool True)"
    and 5: "fst (calls (lib_meterAndCheck demo_env demo_runtime demo_request) 200
             (demo_world\<lparr>faults := replicate 600 True\<rparr>))
     = replicate 200 (Inr (JObj [(''allowed'', JBool True)]))"
    by simp_all
  from 1 2 3 4 5 show ?thesis by blast
qed

lemma fail_closed_facts:
  "returned (fst (meterAndCheck (demo_env\<lparr>VATFIX_RPS_LIMIT := Some (- 1)\<rparr>) demo_runtime demo_request
       demo_down_world)) ''allowed'' = JBool False"
  "returned (fst (lib_meterAndCheck (demo_env\<lparr>VATFIX_RPS_LIMIT := Some (- 1)\<rparr>) demo_runtime demo_request
       demo_down_world)) ''allowed'' = JBool False"
  "threw (fst (meterAndCheck (demo_env\<lparr>VATFIX_WINDOW_MS := Some (- 100000000000000000)\<rparr>)
       demo_runtime demo_request demo_down_world))"
  "threw (fst (meterAndCheck demo_env demo_runtime (demo_request\<lparr>apiKey := demo_unprintable\<rparr>)
       demo_down_world))"
  "threw (fst (lib_meterAndCheck demo_env demo_runtime (demo_request\<lparr>apiKey := demo_unprintable\<rparr>)
       demo_down_world))"
  "threw (fst (lib_meterAndCheck demo_env demo_runtime (demo_request\<lparr>vatNumber := demo_unprintable\<rparr>)
       demo_down_world))"
  by code_simp+

lemma lib_sixth_without_key_denied:
  "returned (fst (calls (lib_meterAndCheck demo_env demo_runtime (demo_request\<lparr>apiKey := JUndefined\<rparr>)) 6
               demo_world) ! 5) ''allowed'' = JBool False"
proof -
  have k: "to_String demo_runtime (apiKey (demo_request\<lparr>apiKey := JUndefined\<rparr>)) = Inr ''undefined''"
    by simp
  have lo: "- 9007199254740993 \<le> (0::int)" and hi: "0 + int 6 \<le> 9007199254740992"
    by simp_all
  have vat: "printable demo_runtime (vatNumber (demo_request\<lparr>apiKey := JUndefined\<rparr>))"
    using demo_facts(11) by simp
  have "fst (calls (lib_meterAndCheck demo_env demo_runtime (demo_request\<lparr>apiKey := JUndefined\<rparr>)) 6 demo_world)
      = map (\<lambda>j. if 0 + 1 + int j > lib_LIMIT demo_env
                  then Inr (JObj [(''allowed'', JBool False), (''reason'', JStr ''rate_limit_exceeded'')])
                  else if printable demo_runtime (vatNumber (demo_request\<lparr>apiKey := JUndefined\<rparr>))
                    then Inr (JObj [(''allowed'', JBool True)])
                    else Inl not_primitive) [0..<6]"
    using lib_meterAndCheck_calls [OF demo_facts(1) k demo_facts(2) demo_facts(3) demo_facts(9) lo hi]
    by blast
  then show ?thesis
    by (simp add: demo_facts returned_def del: upt_Suc)
qed

text \<open>
  Claim C5 as stated fails on lib/meter.js for a request without API key: with a bucket
  configured and a limit of 5, such requests are counted, and the sixth is denied. It also
  fails, with the store failing every request, for a limit of \<open>-1\<close>, where the first
  request is denied by meter.js and by lib/meter.js; for a window that starts outside the
  range of Date (a window length of \<open>-10^17\<close>), where meter.js throws; for an API key that
  is an object with a property \<open>toString\<close>, where both throw; and for such a VAT number,
  where lib/meter.js throws.
\<close>

theorem lib_meter_denies_without_api_key:
  "returned (fst (calls (lib_meterAndCheck demo_env demo_runtime (demo_request\<lparr>apiKey := JUndefined\<rparr>)) 6
               demo_world) ! 5) ''allowed'' = JBool False
   \<and> returned (fst (meterAndCheck (demo_env\<lparr>VATFIX_RPS_LIMIT := Some (- 1)\<rparr>) demo_runtime demo_request
        demo_down_world)) ''allowed'' = JBool False
   \<and> returned (fst (lib_meterAndCheck (demo_env\<lparr>VATFIX_RPS_LIMIT := Some (- 1)\<rparr>) demo_runtime demo_request
        demo_down_world)) ''allowed'' = JBool False
   \<and> threw (fst (meterAndCheck (demo_env\<lparr>VATFIX_WINDOW_MS := Some (- 100000000000000000)\<rparr>)
        demo_runtime demo_request demo_down_world))
   \<and> threw (fst (meterAndCheck demo_env demo_runtime (demo_request\<lparr>apiKey := demo_unprintable\<rparr>)
        demo_down_world))
   \<and> threw (fst (lib_meterAndCheck demo_env demo_runtime (demo_request\<lparr>apiKey := demo_unprintable\<rparr>)
        demo_down_world))
   \<and> threw (fst (lib_meterAndCheck demo_env demo_runtime (demo_request\<lparr>vatNumber := demo_unprintable\<rparr>)
        demo_down_world))"
  using lib_sixth_without_key_denied fail_closed_facts by blast

end
